theory Spec2Isabelle
  imports Complex_Main "HOL-Library.Multiset"
begin

section \<open>The dynamic form engine of \<open>src/components/dynamic-form.tsx\<close>\<close>

subsection \<open>JavaScript values\<close>

text \<open>
  A JavaScript number is \<open>NaN\<close>, one of the two infinities (\<open>Infinity True\<close> is the
  negative one), or a finite double, kept as the rational it denotes. The two zeros are
  one value.
\<close>

datatype jsnum = NaN | Infinity bool | Finite rat

text \<open>
  The values a form field or a data row can hold: the values of JSON and \<open>undefined\<close>.
  Strings are sequences of code units below 256. An object is given by its own
  properties; none of them is a function.
\<close>

datatype jsval =
    JUndefined
  | JNull
  | JBool bool
  | JNum jsnum
  | JStr string
  | JArr "jsval list"
  | JObj "(string \<times> jsval) list"

subsection \<open>Zod schemas as the code inspects them\<close>

text \<open>
  What \<open>schema.shape[key]\<close>, or the inside of a wrapper, can hold. The first four
  constructors are the values that are no schema: \<open>undefined\<close>; \<open>null\<close>; \<open>NotZod\<close>, any
  other value whose \<open>_def\<close> is \<open>undefined\<close> or \<open>null\<close> (a plain object, a string, ...);
  and \<open>BadDef\<close>, a value whose \<open>_def\<close> is something else that is not an object (a
  number, a string, a function), so that reading \<open>_def.typeName\<close> gives \<open>undefined\<close>
  without throwing. The others are objects whose \<open>_def\<close> is an object, told apart by
  \<open>_def.typeName\<close>: the four wrappers with the schema they wrap (\<open>_def.innerType\<close>, or
  \<open>_def.schema\<close> for \<open>ZodEffects\<close>), the five base types the form renders, and
  \<open>ZodOther\<close> for every other type name (\<open>ZodDate\<close>, \<open>ZodObject\<close>, ...). \<open>ZodDefault\<close>
  carries the value that calling \<open>_def.defaultValue()\<close> returns; \<open>ZodEnum\<close> carries
  \<open>_def.values\<close>. A datatype value is finite, so a wrapper chain always ends, as it does
  for schemas built by Zod.
\<close>

datatype zod =
    Undefined
  | Null
  | NotZod
  | BadDef
  | ZodOptional zod
  | ZodDefault jsval zod
  | ZodNullable zod
  | ZodEffects zod
  | ZodString
  | ZodNumber
  | ZodBoolean
  | ZodEnum "string list"
  | ZodArray
  | ZodOther

text \<open>
  The three ways the code fails: the \<open>Error\<close> thrown with a "Schema error" message for
  the key whose descriptor is \<open>undefined\<close>, the \<open>Error\<close> thrown by the guard of
  \<open>unwrapZodType\<close>, and the \<open>TypeError\<close> of the runtime (a property of \<open>undefined\<close> or
  \<open>null\<close> is read, a value that is no function is called, an object cannot be
  converted to a primitive).
\<close>

datatype error = SchemaError string | InvalidSchema | TypeError

type_synonym shape = "(string \<times> zod) list"

type_synonym valueset = "string \<rightharpoonup> jsval"

subsection \<open>Type unwrapping\<close>

text \<open>
  The \<open>while\<close> loop of \<open>unwrapZodType\<close>: each test reads \<open>currentSchema._def.typeName\<close>,
  which throws a \<open>TypeError\<close> when \<open>currentSchema\<close> or its \<open>_def\<close> is \<open>undefined\<close> or
  \<open>null\<close>, and is \<open>undefined\<close>, ending the loop, on a \<open>BadDef\<close>.
\<close>

fun unwrap_loop :: "zod \<Rightarrow> error + zod" where
  "unwrap_loop (ZodOptional t) = unwrap_loop t"
| "unwrap_loop (ZodDefault d t) = unwrap_loop t"
| "unwrap_loop (ZodNullable t) = unwrap_loop t"
| "unwrap_loop (ZodEffects t) = unwrap_loop t"
| "unwrap_loop Undefined = Inl TypeError"
| "unwrap_loop Null = Inl TypeError"
| "unwrap_loop NotZod = Inl TypeError"
| "unwrap_loop t = Inr t"

text \<open>The guard comes first: a falsy argument, or one whose \<open>_def\<close> is not an object.\<close>

fun unwrapZodType :: "zod \<Rightarrow> error + zod" where
  "unwrapZodType Undefined = Inl InvalidSchema"
| "unwrapZodType Null = Inl InvalidSchema"
| "unwrapZodType NotZod = Inl InvalidSchema"
| "unwrapZodType BadDef = Inl InvalidSchema"
| "unwrapZodType t = unwrap_loop t"

subsection \<open>Default value synthesis\<close>

text \<open>
  The \<open>switch\<close> on the base type's name in \<open>defaultValues\<close>; the \<open>default\<close> branch also
  takes a \<open>BadDef\<close>, whose type name is \<open>undefined\<close>.
\<close>

fun type_fallback :: "zod \<Rightarrow> jsval" where
  "type_fallback ZodString = JStr []"
| "type_fallback ZodBoolean = JBool False"
| "type_fallback (ZodEnum enumValues) =
     (if length enumValues > 0 then JStr (hd enumValues) else JStr [])"
| "type_fallback ZodNumber = JNum (Finite 0)"
| "type_fallback ZodArray = JArr []"
| "type_fallback t = JUndefined"

text \<open>
  The body of the \<open>reduce\<close> callback for one key, giving the value assigned to
  \<open>acc[key]\<close>: the \<open>undefined\<close> test, then the read of
  \<open>originalFieldSchema._def.typeName\<close> (a \<open>TypeError\<close> on \<open>null\<close> and on a value without
  \<open>_def\<close>), the early return for an outermost \<open>ZodDefault\<close>, and the fallback of the
  unwrapped type.
\<close>

fun default_value :: "string \<Rightarrow> zod \<Rightarrow> error + jsval" where
  "default_value key Undefined = Inl (SchemaError key)"
| "default_value key Null = Inl TypeError"
| "default_value key NotZod = Inl TypeError"
| "default_value key (ZodDefault d t) = Inr d"
| "default_value key t =
     (case unwrapZodType t of Inl e \<Rightarrow> Inl e | Inr baseType \<Rightarrow> Inr (type_fallback baseType))"

text \<open>
  \<open>acc[key] = v\<close> on the accumulator, an ordinary object that starts as \<open>{}\<close>, seen
  through its own properties: the assignment creates or overwrites the own property
  \<open>key\<close>, except for the key \<open>__proto__\<close>, which reaches the setter inherited from
  \<open>Object.prototype\<close> and leaves the own properties as they are.
\<close>

definition assign :: "valueset \<Rightarrow> string \<Rightarrow> jsval \<Rightarrow> valueset" where
  "assign acc key v = (if key = ''__proto__'' then acc else acc(key \<mapsto> v))"

text \<open>
  \<open>Object.keys(schema.shape).reduce(..., {})\<close>: the keys in order, an exception ending
  the fold.
\<close>

fun reduce_shape ::
  "(string \<Rightarrow> zod \<Rightarrow> error + jsval) \<Rightarrow> shape \<Rightarrow> valueset \<Rightarrow> error + valueset" where
  "reduce_shape f [] acc = Inr acc"
| "reduce_shape f ((key, t) # rest) acc =
     (case f key t of Inl e \<Rightarrow> Inl e | Inr v \<Rightarrow> reduce_shape f rest (assign acc key v))"

definition defaultValues :: "shape \<Rightarrow> error + valueset" where
  "defaultValues sh = reduce_shape default_value sh Map.empty"

subsection \<open>Strings\<close>

text \<open>
  The white space and line terminators that \<open>String.prototype.trim\<close>, \<open>Number\<close> and
  \<open>parseInt\<close> skip, among the code units below 256: tab, line feed, vertical tab, form
  feed, carriage return, space and the no-break space.
\<close>

definition is_ws :: "char \<Rightarrow> bool" where
  "is_ws c = (c \<in> set [CHR 0x09, CHR 0x0A, CHR 0x0B, CHR 0x0C, CHR 0x0D, CHR 0x20, CHR 0xA0])"

definition trim :: "string \<Rightarrow> string" where
  "trim s = rev (dropWhile is_ws (rev (dropWhile is_ws s)))"

definition startsWith :: "string \<Rightarrow> string \<Rightarrow> bool" where
  "startsWith s p = (take (length p) s = p)"

definition endsWith :: "string \<Rightarrow> string \<Rightarrow> bool" where
  "endsWith s p = (length p \<le> length s \<and> drop (length s - length p) s = p)"

text \<open>\<open>value.slice(1, -1)\<close>: from index 1 up to, not including, the last code unit.\<close>

definition slice_1_m1 :: "string \<Rightarrow> string" where
  "slice_1_m1 s = butlast (tl s)"

text \<open>\<open>s.split(",")\<close>: the pieces between the commas; one (empty) piece for the empty string.\<close>

fun split_comma :: "string \<Rightarrow> string list" where
  "split_comma [] = [[]]"
| "split_comma (c # cs) =
     (if c = CHR '','' then [] # split_comma cs
      else (c # hd (split_comma cs)) # tl (split_comma cs))"

text \<open>\<open>Array.prototype.join\<close> with its default separator.\<close>

fun join_comma :: "string list \<Rightarrow> string" where
  "join_comma [] = []"
| "join_comma [x] = x"
| "join_comma (x # xs) = x @ '','' @ join_comma xs"

subsection \<open>Numbers\<close>

text \<open>
  The Number value for a rational: the nearest double, ties to the even significand,
  with the subnormal range below \<open>2^-1022\<close> and \<open>Infinity\<close> where the rounded value
  reaches \<open>2^1024\<close> (the exponent is 1023 and the significand rounds up to \<open>2^53\<close>,
  or the exponent is larger).
  \<open>bit_length n\<close> is the number of binary digits of \<open>n\<close>, and \<open>floor_log2 a\<close> the
  exponent \<open>e\<close> with \<open>2^e \<le> a < 2^(e+1)\<close> for a positive \<open>a\<close>.
\<close>

function bit_length :: "int \<Rightarrow> nat" where
  "bit_length n = (if n \<le> 0 then 0 else Suc (bit_length (n div 2)))"
  by pat_completeness auto
termination
  by (relation "measure nat") auto

definition pow2 :: "int \<Rightarrow> rat" where
  "pow2 k = (if 0 \<le> k then 2 ^ nat k else 1 / 2 ^ nat (- k))"

definition floor_log2 :: "rat \<Rightarrow> int" where
  "floor_log2 a =
     (let (p, q) = quotient_of a;
          k = int (bit_length p) - int (bit_length q)
      in if pow2 k \<le> a then k else k - 1)"

definition round_half_even :: "rat \<Rightarrow> int" where
  "round_half_even q =
     (let n = \<lfloor>q\<rfloor>; f = q - of_int n
      in if f < 1 / 2 then n
         else if 1 / 2 < f then n + 1
         else if even n then n else n + 1)"

definition to_double :: "rat \<Rightarrow> jsnum" where
  "to_double r =
     (if r = 0 then Finite 0
      else (let a = \<bar>r\<bar>;
                e = max (floor_log2 a) (- 1022);
                ulp = pow2 (e - 52);
                n = round_half_even (a / ulp);
                v = of_int n * ulp
            in if 1024 \<le> e \<or> e = 1023 \<and> 2 ^ 53 \<le> n then Infinity (r < 0)
               else Finite (if r < 0 then - v else v)))"

definition is_digit :: "char \<Rightarrow> bool" where
  "is_digit c = (48 \<le> (of_char c :: nat) \<and> (of_char c :: nat) \<le> 57)"

definition digit_val :: "char \<Rightarrow> nat" where
  "digit_val c =
     (let n = (of_char c :: nat) in
      if 48 \<le> n \<and> n \<le> 57 then n - 48
      else if 97 \<le> n \<and> n \<le> 102 then n - 87
      else n - 55)"

definition is_radix_digit :: "nat \<Rightarrow> char \<Rightarrow> bool" where
  "is_radix_digit b c =
     (let n = (of_char c :: nat) in
      (48 \<le> n \<and> n \<le> 57 \<or> 97 \<le> n \<and> n \<le> 102 \<or> 65 \<le> n \<and> n \<le> 70) \<and> digit_val c < b)"

definition digits_val :: "nat \<Rightarrow> string \<Rightarrow> int" where
  "digits_val b ds = foldl (\<lambda>a c. int b * a + int (digit_val c)) 0 ds"

definition strip_sign :: "string \<Rightarrow> bool \<times> string" where
  "strip_sign s =
     (case s of
        [] \<Rightarrow> (False, [])
      | c # cs \<Rightarrow>
          if c = CHR ''-'' then (True, cs)
          else if c = CHR ''+'' then (False, cs)
          else (False, s))"

text \<open>
  \<open>parseInt(value, 10)\<close>: leading white space is skipped, then a sign, then the longest
  run of decimal digits is read and whatever follows is ignored; no digit gives \<open>NaN\<close>,
  and otherwise the result is the Number value for the integer read (beyond twenty
  digits an engine may round the digits first; the model rounds the exact integer).
\<close>

definition parseInt10 :: "string \<Rightarrow> jsnum" where
  "parseInt10 s =
     (let (neg, u) = strip_sign (dropWhile is_ws s);
          z = takeWhile is_digit u
      in if z = [] then NaN
         else to_double (if neg then - of_int (digits_val 10 z) else of_int (digits_val 10 z)))"

text \<open>
  The conversion of a string to a number (\<open>Number(s)\<close>): white space is trimmed on both
  sides; the empty string is 0; a hexadecimal, octal or binary literal (unsigned, with
  its \<open>0x\<close>, \<open>0o\<close>, \<open>0b\<close> prefix), a signed \<open>Infinity\<close>, or a signed decimal literal
  with optional fraction and exponent is the Number value for what it denotes;
  anything else is \<open>NaN\<close>. The whole string must be the literal.
\<close>

definition exponent_part :: "string \<Rightarrow> int option" where
  "exponent_part s =
     (case s of
        [] \<Rightarrow> Some 0
      | c # cs \<Rightarrow>
          if c = CHR ''e'' \<or> c = CHR ''E'' then
            (let (neg, ds) = strip_sign cs
             in if ds \<noteq> [] \<and> list_all is_digit ds
                then Some (if neg then - digits_val 10 ds else digits_val 10 ds)
                else None)
          else None)"

definition scale10 :: "rat \<Rightarrow> int \<Rightarrow> rat" where
  "scale10 m k = (if 0 \<le> k then m * 10 ^ nat k else m / 10 ^ nat (- k))"

definition unsigned_decimal :: "string \<Rightarrow> rat option" where
  "unsigned_decimal s =
     (let ip = takeWhile is_digit s;
          r1 = dropWhile is_digit s;
          (fp, r2) =
            (case r1 of
               [] \<Rightarrow> ([], [])
             | c # cs \<Rightarrow>
                 if c = CHR ''.'' then (takeWhile is_digit cs, dropWhile is_digit cs)
                 else ([], r1))
      in if ip = [] \<and> fp = [] then None
         else (case exponent_part r2 of
                 None \<Rightarrow> None
               | Some e \<Rightarrow> Some (scale10 (of_int (digits_val 10 (ip @ fp))) (e - int (length fp)))))"

definition radix_literal :: "string \<Rightarrow> jsnum option" where
  "radix_literal t =
     (let b = (if startsWith t ''0x'' \<or> startsWith t ''0X'' then 16
               else if startsWith t ''0o'' \<or> startsWith t ''0O'' then 8
               else if startsWith t ''0b'' \<or> startsWith t ''0B'' then 2
               else (0::nat));
          ds = drop 2 t
      in if b = 0 then None
         else if ds \<noteq> [] \<and> list_all (is_radix_digit b) ds
           then Some (to_double (of_int (digits_val b ds)))
         else Some NaN)"

definition StringToNumber :: "string \<Rightarrow> jsnum" where
  "StringToNumber s =
     (let t = trim s
      in if t = [] then Finite 0
         else (case radix_literal t of
                 Some n \<Rightarrow> n
               | None \<Rightarrow>
                   (let (neg, u) = strip_sign t
                    in if u = ''Infinity'' then Infinity neg
                       else (case unsigned_decimal u of
                               None \<Rightarrow> NaN
                             | Some r \<Rightarrow> to_double (if neg then - r else r)))))"

definition isNaN :: "jsnum \<Rightarrow> bool" where
  "isNaN n = (n = NaN)"

subsection \<open>Conversions of values\<close>

text \<open>The results of a list of conversions, or the first exception among them.\<close>

fun sequence :: "(error + 'a) list \<Rightarrow> error + 'a list" where
  "sequence [] = Inr []"
| "sequence (Inl e # rs) = Inl e"
| "sequence (Inr x # rs) = (case sequence rs of Inl e \<Rightarrow> Inl e | Inr xs \<Rightarrow> Inr (x # xs))"

text \<open>
  \<open>String(value)\<close>. The text of a number (\<open>Number.prototype.toString\<close>) is a parameter,
  \<open>fmt\<close>. An array is the comma-joined text of its elements, \<open>undefined\<close> and \<open>null\<close>
  giving the empty text. An object is \<open>[object Object]\<close>, through the \<open>toString\<close> it
  inherits, unless it has an own property \<open>toString\<close>: that is no function, no
  conversion is left, and a \<open>TypeError\<close> is thrown.
\<close>

fun ToString :: "(jsnum \<Rightarrow> string) \<Rightarrow> jsval \<Rightarrow> error + string" where
  "ToString fmt JUndefined = Inr ''undefined''"
| "ToString fmt JNull = Inr ''null''"
| "ToString fmt (JBool b) = Inr (if b then ''true'' else ''false'')"
| "ToString fmt (JNum n) = Inr (fmt n)"
| "ToString fmt (JStr s) = Inr s"
| "ToString fmt (JArr xs) =
     (case sequence (map (\<lambda>x. case x of JUndefined \<Rightarrow> Inr [] | JNull \<Rightarrow> Inr []
                                 | _ \<Rightarrow> ToString fmt x) xs) of
        Inl e \<Rightarrow> Inl e
      | Inr texts \<Rightarrow> Inr (join_comma texts))"
| "ToString fmt (JObj ps) =
     (if ''toString'' \<in> fst ` set ps then Inl TypeError else Inr ''[object Object]'')"

text \<open>\<open>Number(value)\<close>: an array or object is converted through its text.\<close>

fun ToNumber :: "(jsnum \<Rightarrow> string) \<Rightarrow> jsval \<Rightarrow> error + jsnum" where
  "ToNumber fmt JUndefined = Inr NaN"
| "ToNumber fmt JNull = Inr (Finite 0)"
| "ToNumber fmt (JBool b) = Inr (Finite (if b then 1 else 0))"
| "ToNumber fmt (JNum n) = Inr n"
| "ToNumber fmt (JStr s) = Inr (StringToNumber s)"
| "ToNumber fmt v = (case ToString fmt v of Inl e \<Rightarrow> Inl e | Inr s \<Rightarrow> Inr (StringToNumber s))"

text \<open>\<open>!!value\<close>.\<close>

fun ToBoolean :: "jsval \<Rightarrow> bool" where
  "ToBoolean JUndefined = False"
| "ToBoolean JNull = False"
| "ToBoolean (JBool b) = b"
| "ToBoolean (JNum n) = (n \<noteq> NaN \<and> n \<noteq> Finite 0)"
| "ToBoolean (JStr s) = (s \<noteq> [])"
| "ToBoolean v = True"

fun isArray :: "jsval \<Rightarrow> bool" where
  "isArray (JArr xs) = True"
| "isArray v = False"

text \<open>\<open>enumValues.includes(value)\<close>: the options are strings, so only an equal string is found.\<close>

fun includes_val :: "string list \<Rightarrow> jsval \<Rightarrow> bool" where
  "includes_val enumValues (JStr s) = (s \<in> set enumValues)"
| "includes_val enumValues v = False"

subsection \<open>Initial-value normalization\<close>

text \<open>
  The body of the \<open>try\<close> in the \<open>ZodArray\<close> branch, for a string value: \<open>None\<close>
  stands for an exception, which the \<open>catch\<close> would turn into the empty array. The
  body slices, trims, splits and maps a string.
\<close>

definition parse_brace_literal :: "string \<Rightarrow> jsval option" where
  "parse_brace_literal s =
     (let innerContent = slice_1_m1 s
      in if trim innerContent = [] then Some (JArr [])
         else Some (JArr (map (\<lambda>item. JStr (trim item)) (split_comma innerContent))))"

text \<open>The \<open>ZodArray\<close> branch of \<open>processedInitialValues\<close>.\<close>

definition normalize_array :: "jsval \<Rightarrow> jsval" where
  "normalize_array v =
     (if isArray v then v
      else if v = JNull \<or> v = JUndefined then JArr []
      else (case v of
              JStr s \<Rightarrow>
                if startsWith s ''{'' \<and> endsWith s ''}'' then
                  (case parse_brace_literal s of Some parsed \<Rightarrow> parsed | None \<Rightarrow> JArr [])
                else JArr []
            | _ \<Rightarrow> JArr []))"

text \<open>\<open>enumValues[0] || ""\<close>.\<close>

definition first_or_empty :: "string list \<Rightarrow> string" where
  "first_or_empty enumValues = (case enumValues of [] \<Rightarrow> [] | v # _ \<Rightarrow> if v = [] then [] else v)"

text \<open>
  The chain of tests on the base type's name, for the value found for the key. The
  last branch, which passes the value through, also takes a \<open>BadDef\<close>.
\<close>

fun normalize_value :: "(jsnum \<Rightarrow> string) \<Rightarrow> zod \<Rightarrow> jsval \<Rightarrow> error + jsval" where
  "normalize_value fmt ZodBoolean v = Inr (JBool (ToBoolean v))"
| "normalize_value fmt ZodString v =
     (if v = JNull \<or> v = JUndefined then Inr (JStr [])
      else (case ToString fmt v of Inl e \<Rightarrow> Inl e | Inr s \<Rightarrow> Inr (JStr s)))"
| "normalize_value fmt (ZodEnum enumValues) v =
     (if v = JNull \<or> v = JUndefined \<or> \<not> includes_val enumValues v
      then Inr (JStr (first_or_empty enumValues))
      else (case ToString fmt v of Inl e \<Rightarrow> Inl e | Inr s \<Rightarrow> Inr (JStr s)))"
| "normalize_value fmt ZodNumber v =
     (case ToNumber fmt v of
        Inl e \<Rightarrow> Inl e
      | Inr num \<Rightarrow> if isNaN num then Inr (JNum (Finite 0)) else Inr (JNum num))"
| "normalize_value fmt ZodArray v = Inr (normalize_array v)"
| "normalize_value fmt t v = Inr v"

text \<open>
  \<open>initialValues.hasOwnProperty(key) ? initialValues[key] : undefined\<close>, for
  \<open>initialValues\<close> an ordinary object given by its own properties. The method is
  looked up on the object itself first: an own property named \<open>hasOwnProperty\<close> is
  what gets called, and it is no function.
\<close>

definition own_value :: "valueset \<Rightarrow> string \<Rightarrow> error + jsval" where
  "own_value initialValues key =
     (if initialValues ''hasOwnProperty'' \<noteq> None then Inl TypeError
      else Inr (case initialValues key of None \<Rightarrow> JUndefined | Some v \<Rightarrow> v))"

text \<open>The body of the \<open>reduce\<close> callback in the effect, for one key.\<close>

definition normalize_field :: "(jsnum \<Rightarrow> string) \<Rightarrow> valueset \<Rightarrow> string \<Rightarrow> zod \<Rightarrow> error + jsval" where
  "normalize_field fmt initialValues key t =
     (if t = Undefined then Inl (SchemaError key)
      else (case own_value initialValues key of
              Inl e \<Rightarrow> Inl e
            | Inr v \<Rightarrow>
                (case unwrapZodType t of
                   Inl e \<Rightarrow> Inl e
                 | Inr baseFieldType \<Rightarrow> normalize_value fmt baseFieldType v)))"

definition processedInitialValues :: "(jsnum \<Rightarrow> string) \<Rightarrow> shape \<Rightarrow> valueset \<Rightarrow> error + valueset" where
  "processedInitialValues fmt sh initialValues =
     reduce_shape (normalize_field fmt initialValues) sh Map.empty"

subsection \<open>Edit-time input handlers\<close>

text \<open>The \<open>onChange\<close> of a \<open>ZodNumber\<close> field: the value passed to \<open>field.onChange\<close>.\<close>

definition number_onChange :: "string \<Rightarrow> jsval" where
  "number_onChange v = (let num = parseInt10 v in if isNaN num then JUndefined else JNum num)"

text \<open>
  The \<open>onChange\<close> of a \<open>ZodArray\<close> field. \<open>JSON.parse\<close> is the platform's and is a
  parameter: \<open>None\<close> when it throws.
\<close>

definition array_onChange :: "(string \<Rightarrow> jsval option) \<Rightarrow> string \<Rightarrow> jsval" where
  "array_onChange JSON_parse v =
     (if trim v = [] then JNull
      else (case JSON_parse v of
              None \<Rightarrow> JStr v
            | Some parsed \<Rightarrow> if isArray parsed then parsed else JStr v))"

subsection \<open>Construction of the form\<close>

text \<open>
  \<open>renderField\<close> unwraps the field's schema and picks the renderer from the type name
  of the result; the model returns that result.
\<close>

definition renderField :: "string \<Rightarrow> zod \<Rightarrow> error + zod" where
  "renderField fieldName fieldSchema = unwrapZodType fieldSchema"

fun render_fields :: "shape \<Rightarrow> error + zod list" where
  "render_fields [] = Inr []"
| "render_fields ((fieldName, t) # rest) =
     (case renderField fieldName t of
        Inl e \<Rightarrow> Inl e
      | Inr b \<Rightarrow> (case render_fields rest of Inl e \<Rightarrow> Inl e | Inr bs \<Rightarrow> Inr (b # bs)))"

text \<open>
  One call of the component: the default values are computed, then every field is
  rendered in key order. The effect that normalizes initial values runs afterwards.
\<close>

definition DynamicForm :: "shape \<Rightarrow> error + valueset \<times> zod list" where
  "DynamicForm sh =
     (case defaultValues sh of
        Inl e \<Rightarrow> Inl e
      | Inr dv \<Rightarrow> (case render_fields sh of Inl e \<Rightarrow> Inl e | Inr bs \<Rightarrow> Inr (dv, bs)))"

subsection \<open>Vocabulary of the statements\<close>

text \<open>The base types: the schema objects that are no wrapper.\<close>

fun is_base :: "zod \<Rightarrow> bool" where
  "is_base ZodString = True"
| "is_base ZodNumber = True"
| "is_base ZodBoolean = True"
| "is_base (ZodEnum vs) = True"
| "is_base ZodArray = True"
| "is_base ZodOther = True"
| "is_base t = False"

text \<open>The primitives the specification names: Text, Integer, Boolean, Enum, List.\<close>

fun recognized :: "zod \<Rightarrow> bool" where
  "recognized ZodString = True"
| "recognized ZodNumber = True"
| "recognized ZodBoolean = True"
| "recognized (ZodEnum vs) = True"
| "recognized ZodArray = True"
| "recognized t = False"

text \<open>
  A descriptor is a schema when its wrappers end at a base type, as for everything that
  Zod builds. It is broken when it is, or its wrappers end at, \<open>undefined\<close>, \<open>null\<close> or
  a value without \<open>_def\<close>.
\<close>

fun is_schema :: "zod \<Rightarrow> bool" where
  "is_schema (ZodOptional t) = is_schema t"
| "is_schema (ZodDefault d t) = is_schema t"
| "is_schema (ZodNullable t) = is_schema t"
| "is_schema (ZodEffects t) = is_schema t"
| "is_schema t = is_base t"

fun broken :: "zod \<Rightarrow> bool" where
  "broken Undefined = True"
| "broken Null = True"
| "broken NotZod = True"
| "broken (ZodOptional t) = broken t"
| "broken (ZodDefault d t) = broken t"
| "broken (ZodNullable t) = broken t"
| "broken (ZodEffects t) = broken t"
| "broken t = False"

definition well_formed :: "shape \<Rightarrow> bool" where
  "well_formed sh = list_all (\<lambda>(key, t). is_schema t) sh"

text \<open>The errors that the code throws itself, as opposed to those of the runtime.\<close>

fun schema_error :: "error \<Rightarrow> bool" where
  "schema_error (SchemaError key) = True"
| "schema_error InvalidSchema = True"
| "schema_error TypeError = False"

text \<open>The four wrappers, and a base type wrapped in a list of them, outermost first.\<close>

datatype wrapper = Optional | Default jsval | Nullable | Effects

fun apply_wrapper :: "wrapper \<Rightarrow> zod \<Rightarrow> zod" where
  "apply_wrapper Optional t = ZodOptional t"
| "apply_wrapper (Default d) t = ZodDefault d t"
| "apply_wrapper Nullable t = ZodNullable t"
| "apply_wrapper Effects t = ZodEffects t"

definition wrap :: "wrapper list \<Rightarrow> zod \<Rightarrow> zod" where
  "wrap ws t = foldr apply_wrapper ws t"

text \<open>The defaults a field declares, from the outermost wrapper inwards.\<close>

fun declared_defaults :: "zod \<Rightarrow> jsval list" where
  "declared_defaults (ZodOptional t) = declared_defaults t"
| "declared_defaults (ZodDefault d t) = d # declared_defaults t"
| "declared_defaults (ZodNullable t) = declared_defaults t"
| "declared_defaults (ZodEffects t) = declared_defaults t"
| "declared_defaults t = []"

text \<open>
  A string is numeric when \<open>Number\<close> converts it to a number; it has a leading integer
  when, after leading white space and an optional sign, it starts with a decimal digit.
\<close>

definition numeric_string :: "string \<Rightarrow> bool" where
  "numeric_string s = (StringToNumber s \<noteq> NaN)"

definition leading_integer :: "string \<Rightarrow> bool" where
  "leading_integer s =
     (case snd (strip_sign (dropWhile is_ws s)) of [] \<Rightarrow> False | c # cs \<Rightarrow> is_digit c)"

text \<open>
  The value a row holds under a key, \<open>undefined\<close> when it has none. A value throws on
  conversion to a string when it is, or is an array that holds, an object with an own
  property \<open>toString\<close>. A row is plain for a schema when it has no own property
  \<open>hasOwnProperty\<close> and none of its values under the schema's keys throws on
  conversion.
\<close>

definition row_value :: "valueset \<Rightarrow> string \<Rightarrow> jsval" where
  "row_value initialValues key = (case initialValues key of None \<Rightarrow> JUndefined | Some v \<Rightarrow> v)"

fun throwing :: "jsval \<Rightarrow> bool" where
  "throwing (JObj ps) = (''toString'' \<in> fst ` set ps)"
| "throwing (JArr xs) = list_ex throwing xs"
| "throwing v = False"

definition plain_row :: "shape \<Rightarrow> valueset \<Rightarrow> bool" where
  "plain_row sh initialValues =
     (initialValues ''hasOwnProperty'' = None \<and>
      list_all (\<lambda>(key, t). \<not> throwing (row_value initialValues key)) sh)"

section \<open>Properties\<close>

subsection \<open>The fold over the schema's keys\<close>

lemma reduce_shape_Cons:
  "reduce_shape f ((key, t) # sh) acc = Inr m \<longleftrightarrow>
   (\<exists>v. f key t = Inr v \<and> reduce_shape f sh (assign acc key v) = Inr m)"
  by (cases "f key t") simp_all

lemma dom_assign: "dom (assign acc key v) = dom acc \<union> ({key} - {''__proto__''})"
  by (auto simp: assign_def)

lemma reduce_shape_dom:
  "reduce_shape f sh acc = Inr m \<Longrightarrow> dom m = dom acc \<union> (fst ` set sh - {''__proto__''})"
proof (induction sh arbitrary: acc)
  case Nil
  then show ?case by simp
next
  case (Cons p sh)
  obtain key t where p: "p = (key, t)" by (cases p)
  from Cons.prems obtain v where "reduce_shape f sh (assign acc key v) = Inr m"
    unfolding p reduce_shape_Cons by blast
  from Cons.IH [OF this] show ?case using p by (auto simp: dom_assign)
qed

lemma reduce_shape_succeeds:
  "(\<exists>m. reduce_shape f sh acc = Inr m) \<longleftrightarrow> (\<forall>(key, t) \<in> set sh. \<exists>v. f key t = Inr v)"
proof (induction sh arbitrary: acc)
  case Nil
  then show ?case by simp
next
  case (Cons p sh)
  obtain key t where p: "p = (key, t)" by (cases p)
  show ?case
  proof (cases "f key t")
    case (Inl e)
    then show ?thesis using p by auto
  next
    case (Inr v)
    have "(\<exists>m. reduce_shape f (p # sh) acc = Inr m) \<longleftrightarrow>
          (\<exists>m. reduce_shape f sh (assign acc key v) = Inr m)"
      unfolding p reduce_shape_Cons using Inr by simp
    also have "\<dots> \<longleftrightarrow> (\<forall>(key, t) \<in> set sh. \<exists>v. f key t = Inr v)"
      by (rule Cons.IH)
    also have "\<dots> \<longleftrightarrow> (\<forall>(key, t) \<in> set (p # sh). \<exists>v. f key t = Inr v)"
      using Inr p by simp
    finally show ?thesis .
  qed
qed

lemma reduce_shape_keeps:
  "reduce_shape f sh acc = Inr m \<Longrightarrow> key \<notin> fst ` set sh \<Longrightarrow> m key = acc key"
proof (induction sh arbitrary: acc)
  case Nil
  then show ?case by simp
next
  case (Cons p sh)
  obtain k u where p: "p = (k, u)" by (cases p)
  from Cons.prems(1) obtain v where rest: "reduce_shape f sh (assign acc k v) = Inr m"
    unfolding p reduce_shape_Cons by blast
  have "key \<notin> fst ` set sh" and "key \<noteq> k" using Cons.prems(2) p by auto
  then show ?case using Cons.IH [OF rest] by (simp add: assign_def)
qed

lemma reduce_shape_proto:
  "reduce_shape f sh acc = Inr m \<Longrightarrow> m ''__proto__'' = acc ''__proto__''"
proof (induction sh arbitrary: acc)
  case Nil
  then show ?case by simp
next
  case (Cons p sh)
  obtain k u where p: "p = (k, u)" by (cases p)
  from Cons.prems(1) obtain v where rest: "reduce_shape f sh (assign acc k v) = Inr m"
    unfolding p reduce_shape_Cons by blast
  show ?case using Cons.IH [OF rest] by (simp add: assign_def)
qed

lemma reduce_shape_entry:
  "reduce_shape f sh acc = Inr m \<Longrightarrow> distinct (map fst sh) \<Longrightarrow> (key, t) \<in> set sh \<Longrightarrow>
   key \<noteq> ''__proto__'' \<Longrightarrow> f key t = Inr (the (m key)) \<and> m key \<noteq> None"
proof (induction sh arbitrary: acc)
  case Nil
  then show ?case by simp
next
  case (Cons p sh)
  obtain k u where p: "p = (k, u)" by (cases p)
  from Cons.prems(1) obtain v where v: "f k u = Inr v"
    and rest: "reduce_shape f sh (assign acc k v) = Inr m"
    unfolding p reduce_shape_Cons by blast
  show ?case
  proof (cases "(key, t) = (k, u)")
    case True
    have "k \<notin> fst ` set sh" using Cons.prems(2) p by auto
    then have "m k = Some v"
      using reduce_shape_keeps [OF rest] True Cons.prems(4) by (simp add: assign_def)
    then show ?thesis using True v by simp
  next
    case False
    then have "(key, t) \<in> set sh" using Cons.prems(3) p by auto
    moreover have "distinct (map fst sh)" using Cons.prems(2) by simp
    ultimately show ?thesis using Cons.IH [OF rest] Cons.prems(4) by blast
  qed
qed

subsection \<open>Unwrapping\<close>

lemma unwrap_loop_fails_iff: "(\<exists>e. unwrap_loop t = Inl e) \<longleftrightarrow> broken t"
  by (induction t) auto

lemma unwrapZodType_fails_iff: "(\<exists>e. unwrapZodType t = Inl e) \<longleftrightarrow> broken t \<or> t = BadDef"
  by (cases t) (auto simp: unwrap_loop_fails_iff)

lemma unwrap_loop_result: "unwrap_loop t = Inr b \<Longrightarrow> is_base b \<or> b = BadDef"
  by (induction t) auto

lemma unwrapZodType_result: "unwrapZodType t = Inr b \<Longrightarrow> is_base b \<or> b = BadDef"
  by (cases t) (auto dest: unwrap_loop_result)

lemma unwrap_loop_schema: "is_schema t \<Longrightarrow> \<exists>b. unwrap_loop t = Inr b \<and> is_base b"
  by (induction t) auto

lemma unwrapZodType_schema: "is_schema t \<Longrightarrow> \<exists>b. unwrapZodType t = Inr b \<and> is_base b"
  using unwrap_loop_schema [of t] by (cases t) auto

lemma unwrapZodType_schema_base: "is_schema t \<Longrightarrow> unwrapZodType t = Inr b \<Longrightarrow> is_base b"
  using unwrapZodType_schema [of t] by auto

lemma unwrapZodType_of_base: "is_base b \<Longrightarrow> unwrapZodType b = Inr b"
  by (cases b) auto

lemma unwrap_loop_wrap: "is_base b \<Longrightarrow> unwrap_loop (wrap ws b) = Inr b"
  unfolding wrap_def
proof (induction ws)
  case Nil
  then show ?case by (cases b) auto
next
  case (Cons w ws)
  then show ?case by (cases w) auto
qed

lemma unwrapZodType_wrap: "is_base b \<Longrightarrow> unwrapZodType (wrap ws b) = Inr b"
proof (cases ws)
  case Nil
  assume "is_base b"
  then show ?thesis using Nil by (simp add: wrap_def unwrapZodType_of_base)
next
  case (Cons w ws')
  assume b: "is_base b"
  have "unwrapZodType (wrap ws b) = unwrap_loop (wrap ws b)"
    using Cons by (cases w) (simp_all add: wrap_def)
  then show ?thesis using unwrap_loop_wrap [OF b] by simp
qed

lemma well_formed_iff: "well_formed sh \<longleftrightarrow> (\<forall>(key, t) \<in> set sh. is_schema t)"
  by (auto simp: well_formed_def list_all_iff)

subsection \<open>Conversions\<close>

lemma sequence_succeeds:
  "(\<forall>r \<in> set rs. \<exists>x. r = Inr x) \<Longrightarrow> \<exists>xs. sequence rs = Inr xs"
proof (induction rs)
  case Nil
  then show ?case by simp
next
  case (Cons r rs)
  then obtain x xs where "r = Inr x" and "sequence rs = Inr xs" by auto
  then show ?case by simp
qed

lemma ToString_succeeds: "\<not> throwing v \<Longrightarrow> \<exists>s. ToString fmt v = Inr s"
proof (induction v)
  case (JArr xs)
  have "\<forall>r \<in> set (map (\<lambda>x. case x of JUndefined \<Rightarrow> Inr [] | JNull \<Rightarrow> Inr []
                                | _ \<Rightarrow> ToString fmt x) xs). \<exists>s. r = Inr s"
  proof
    fix r
    assume "r \<in> set (map (\<lambda>x. case x of JUndefined \<Rightarrow> Inr [] | JNull \<Rightarrow> Inr []
                                | _ \<Rightarrow> ToString fmt x) xs)"
    then obtain x where x: "x \<in> set xs"
      and r: "r = (case x of JUndefined \<Rightarrow> Inr [] | JNull \<Rightarrow> Inr [] | _ \<Rightarrow> ToString fmt x)"
      by auto
    have "\<not> throwing x" using JArr.prems x by (auto simp: list_ex_iff)
    then obtain s where "ToString fmt x = Inr s" using JArr.IH [OF x] by blast
    then show "\<exists>s. r = Inr s" using r by (cases x) auto
  qed
  then obtain texts where "sequence (map (\<lambda>x. case x of JUndefined \<Rightarrow> Inr [] | JNull \<Rightarrow> Inr []
                                | _ \<Rightarrow> ToString fmt x) xs) = Inr texts"
    using sequence_succeeds by blast
  then show ?case by simp
qed auto

lemma ToNumber_succeeds: "\<not> throwing v \<Longrightarrow> \<exists>n. ToNumber fmt v = Inr n"
  using ToString_succeeds [of v fmt] by (cases v) auto

lemma normalize_value_succeeds: "\<not> throwing v \<Longrightarrow> \<exists>r. normalize_value fmt b v = Inr r"
  using ToString_succeeds [of v fmt] ToNumber_succeeds [of v fmt] by (cases b) auto

lemma normalize_undefined:
  "is_base b \<Longrightarrow> normalize_value fmt b JUndefined = Inr (type_fallback b)"
  by (cases b) (auto simp: isNaN_def normalize_array_def first_or_empty_def split: list.splits)

lemma to_double_not_NaN: "to_double r \<noteq> NaN"
  by (simp add: to_double_def Let_def)

subsection \<open>The two value sets\<close>

lemma default_value_succeeds: "is_schema t \<Longrightarrow> \<exists>v. default_value key t = Inr v"
proof (cases "\<exists>d u. t = ZodDefault d u")
  case True
  then show ?thesis by auto
next
  case False
  assume "is_schema t"
  then obtain b where "unwrapZodType t = Inr b" using unwrapZodType_schema by blast
  then show ?thesis using False by (cases t) auto
qed

lemma default_value_fallback:
  "unwrapZodType t = Inr b \<Longrightarrow> declared_defaults t = [] \<Longrightarrow> default_value key t = Inr (type_fallback b)"
  by (cases t) auto

lemma defaultValues_succeeds: "well_formed sh \<Longrightarrow> \<exists>m. defaultValues sh = Inr m"
  unfolding defaultValues_def reduce_shape_succeeds well_formed_iff
  using default_value_succeeds by blast

lemma defaultValues_entry:
  assumes "defaultValues sh = Inr m" and "distinct (map fst sh)" and "(key, t) \<in> set sh"
    and "key \<noteq> ''__proto__''"
  shows "default_value key t = Inr (the (m key)) \<and> m key \<noteq> None"
  using reduce_shape_entry [OF assms(1) [unfolded defaultValues_def] assms(2,3,4)] .

lemma normalize_field_returns:
  "normalize_field fmt initialValues key t = Inr r \<Longrightarrow>
   initialValues ''hasOwnProperty'' = None \<and>
   (\<exists>b. unwrapZodType t = Inr b \<and> normalize_value fmt b (row_value initialValues key) = Inr r)"
  by (auto simp: normalize_field_def own_value_def row_value_def split: if_splits sum.splits)

lemma normalize_field_succeeds:
  assumes "is_schema t" and "initialValues ''hasOwnProperty'' = None"
    and "\<not> throwing (row_value initialValues key)"
  shows "\<exists>r. normalize_field fmt initialValues key t = Inr r"
proof -
  obtain b where b: "unwrapZodType t = Inr b" using assms(1) unwrapZodType_schema by blast
  obtain r where "normalize_value fmt b (row_value initialValues key) = Inr r"
    using normalize_value_succeeds [OF assms(3)] by blast
  moreover have "t \<noteq> Undefined" using assms(1) by auto
  ultimately show ?thesis
    using b assms(2) by (auto simp: normalize_field_def own_value_def row_value_def)
qed

lemma processedInitialValues_succeeds:
  assumes "well_formed sh" and "plain_row sh initialValues"
  shows "\<exists>m. processedInitialValues fmt sh initialValues = Inr m"
proof -
  have "\<forall>(key, t) \<in> set sh. \<exists>v. normalize_field fmt initialValues key t = Inr v"
  proof (intro ballI, clarify)
    fix key t assume m: "(key, t) \<in> set sh"
    have 1: "is_schema t" using assms(1) m unfolding well_formed_iff by auto
    have 2: "initialValues ''hasOwnProperty'' = None" using assms(2) by (simp add: plain_row_def)
    have 3: "\<not> throwing (row_value initialValues key)"
      using assms(2) m by (auto simp: plain_row_def list_all_iff)
    show "\<exists>v. normalize_field fmt initialValues key t = Inr v"
      using normalize_field_succeeds [OF 1 2 3] .
  qed
  then show ?thesis unfolding processedInitialValues_def reduce_shape_succeeds .
qed

lemma processedInitialValues_entry:
  assumes "processedInitialValues fmt sh initialValues = Inr m" and "distinct (map fst sh)"
    and "(key, t) \<in> set sh" and "key \<noteq> ''__proto__''"
  shows "\<exists>b r. unwrapZodType t = Inr b \<and>
           normalize_value fmt b (row_value initialValues key) = Inr r \<and> m key = Some r"
proof -
  have e: "normalize_field fmt initialValues key t = Inr (the (m key)) \<and> m key \<noteq> None"
    using reduce_shape_entry [OF assms(1) [unfolded processedInitialValues_def] assms(2,3,4)] .
  then obtain b where "unwrapZodType t = Inr b"
    and "normalize_value fmt b (row_value initialValues key) = Inr (the (m key))"
    using normalize_field_returns by blast
  then show ?thesis using e by auto
qed

subsection \<open>Strings\<close>

lemma split_comma_nonempty: "split_comma s \<noteq> []"
  by (cases s) simp_all

lemma join_comma_Cons: "xs \<noteq> [] \<Longrightarrow> join_comma (x # xs) = x @ '','' @ join_comma xs"
  by (cases xs) simp_all

lemma join_split_comma: "join_comma (split_comma s) = s"
proof (induction s)
  case Nil
  then show ?case by simp
next
  case (Cons c cs)
  obtain h r where hr: "split_comma cs = h # r"
    using split_comma_nonempty [of cs] by (cases "split_comma cs") auto
  show ?case
  proof (cases "c = CHR '',''")
    case True
    then show ?thesis using Cons.IH hr by (simp add: join_comma_Cons)
  next
    case False
    show ?thesis
    proof (cases r)
      case Nil
      then show ?thesis using False Cons.IH hr by simp
    next
      case (Cons a as)
      then show ?thesis using False Cons.IH hr by simp
    qed
  qed
qed

lemma split_comma_no_comma: "p \<in> set (split_comma s) \<Longrightarrow> CHR '','' \<notin> set p"
proof (induction s arbitrary: p)
  case Nil
  then show ?case by simp
next
  case (Cons c cs)
  obtain h r where hr: "split_comma cs = h # r"
    using split_comma_nonempty [of cs] by (cases "split_comma cs") auto
  have h: "CHR '','' \<notin> set h" and r: "\<And>q. q \<in> set r \<Longrightarrow> CHR '','' \<notin> set q"
    using Cons.IH hr by auto
  show ?case
  proof (cases "c = CHR '',''")
    case True
    then show ?thesis using Cons.prems hr h r by auto
  next
    case False
    then show ?thesis using Cons.prems hr h r by auto
  qed
qed

lemma length_split_comma: "length (split_comma s) = Suc (count_list s CHR '','')"
proof (induction s)
  case Nil
  then show ?case by simp
next
  case (Cons c cs)
  obtain h r where hr: "split_comma cs = h # r"
    using split_comma_nonempty [of cs] by (cases "split_comma cs") auto
  then show ?case using Cons.IH by simp
qed

lemma brace_iff:
  "startsWith s ''{'' \<and> endsWith s ''}'' \<longleftrightarrow> (\<exists>inner. s = ''{'' @ inner @ ''}'')"
proof
  assume a: "startsWith s ''{'' \<and> endsWith s ''}''"
  then obtain cs where s: "s = CHR ''{'' # cs"
    by (cases s) (auto simp: startsWith_def)
  have "cs \<noteq> []" using a s by (auto simp: endsWith_def)
  then have "cs = butlast cs @ [last cs]" by simp
  moreover have "last cs = CHR ''}''"
  proof -
    have "drop (length s - 1) s = ''}''" using a by (simp add: endsWith_def)
    then have "drop (length cs - 1) cs = ''}''" using s \<open>cs \<noteq> []\<close>
      by (cases cs) (auto simp: drop_Cons')
    then show ?thesis using \<open>cs \<noteq> []\<close>
      by (metis last_drop last.simps length_greater_0_conv diff_less zero_less_one)
  qed
  ultimately have "s = ''{'' @ butlast cs @ ''}''" using s by simp
  then show "\<exists>inner. s = ''{'' @ inner @ ''}''" by blast
next
  assume "\<exists>inner. s = ''{'' @ inner @ ''}''"
  then show "startsWith s ''{'' \<and> endsWith s ''}''"
    by (auto simp: startsWith_def endsWith_def)
qed

lemma slice_brace: "slice_1_m1 (''{'' @ inner @ ''}'') = inner"
  by (simp add: slice_1_m1_def)

lemma normalize_array_brace:
  "normalize_array (JStr (''{'' @ inner @ ''}'')) =
     JArr (if trim inner = [] then [] else map (\<lambda>item. JStr (trim item)) (split_comma inner))"
proof -
  have "startsWith (''{'' @ inner @ ''}'') ''{'' \<and> endsWith (''{'' @ inner @ ''}'') ''}''"
    using brace_iff by blast
  then show ?thesis
    using slice_brace [of inner]
    by (simp add: normalize_array_def parse_brace_literal_def del: append.simps)
qed


lemma trim_subset: "set (trim s) \<subseteq> set s"
proof
  fix c assume "c \<in> set (trim s)"
  then have "c \<in> set (dropWhile is_ws (rev (dropWhile is_ws s)))" by (simp add: trim_def)
  then have "c \<in> set (rev (dropWhile is_ws s))" by (rule set_dropWhileD)
  then have "c \<in> set (dropWhile is_ws s)" by simp
  then show "c \<in> set s" by (rule set_dropWhileD)
qed



subsection \<open>Numbers\<close>

lemma number_onChange_undefined_iff: "number_onChange s = JUndefined \<longleftrightarrow> \<not> leading_integer s"
  by (auto simp: number_onChange_def parseInt10_def leading_integer_def isNaN_def Let_def
      to_double_not_NaN takeWhile_eq_Nil_iff split: prod.splits list.splits)

subsection \<open>Declared defaults\<close>

text \<open>
  C1. \<open>defaultValues\<close> uses a declared default only when the default wrapper is the
  outermost one. A string field that declares the default \<open>x\<close> gets the fallback of its
  base type, the empty string, when the default wrapper lies under a nullable or an
  optional wrapper, and gets \<open>x\<close> when the default wrapper is outermost.
\<close>

theorem nested_default_ignored:
  "declared_defaults (ZodNullable (ZodDefault (JStr ''x'') ZodString)) = [JStr ''x'']
   \<and> defaultValues [(''f'', ZodNullable (ZodDefault (JStr ''x'') ZodString))] = Inr [''f'' \<mapsto> JStr []]
   \<and> defaultValues [(''f'', ZodOptional (ZodDefault (JStr ''x'') ZodString))] = Inr [''f'' \<mapsto> JStr []]
   \<and> defaultValues [(''f'', ZodDefault (JStr ''x'') (ZodNullable ZodString))] = Inr [''f'' \<mapsto> JStr ''x'']"
  by (simp add: defaultValues_def assign_def)

subsection \<open>List fields\<close>



text \<open>
  C10. For every string that starts with \<open>{\<close> and ends with \<open>}\<close>, the body of the
  \<open>try\<close> returns (it is never the exception the \<open>catch\<close> waits for), and the
  normalized value is the empty array when the text between the braces is blank, and
  otherwise its comma-separated pieces, trimmed. The pieces joined by commas give the
  text back, there is one more piece than there are commas, and no piece holds a comma:
  an element written with a comma inside is split.
\<close>

theorem brace_literal_never_fails:
  assumes "startsWith s ''{''" and "endsWith s ''}''"
  shows "s = ''{'' @ slice_1_m1 s @ ''}'' \<and>
    parse_brace_literal s \<noteq> None \<and>
    normalize_value fmt ZodArray (JStr s) =
      Inr (JArr (if trim (slice_1_m1 s) = [] then []
                 else map (\<lambda>item. JStr (trim item)) (split_comma (slice_1_m1 s)))) \<and>
    join_comma (split_comma (slice_1_m1 s)) = slice_1_m1 s \<and>
    length (split_comma (slice_1_m1 s)) = Suc (count_list (slice_1_m1 s) CHR '','') \<and>
    (\<forall>item \<in> set (split_comma (slice_1_m1 s)). CHR '','' \<notin> set item \<and> CHR '','' \<notin> set (trim item))"
proof -
  obtain inner where s: "s = ''{'' @ inner @ ''}''"
    using assms brace_iff [of s] by blast
  have i: "slice_1_m1 s = inner" unfolding s by (rule slice_brace)
  have 1: "s = ''{'' @ slice_1_m1 s @ ''}''" using s i by simp
  have 2: "parse_brace_literal s \<noteq> None" by (simp add: parse_brace_literal_def Let_def)
  have 3: "normalize_value fmt ZodArray (JStr s) =
      Inr (JArr (if trim (slice_1_m1 s) = [] then []
                 else map (\<lambda>item. JStr (trim item)) (split_comma (slice_1_m1 s))))"
    unfolding i unfolding s using normalize_array_brace [of inner] by simp
  have 4: "join_comma (split_comma (slice_1_m1 s)) = slice_1_m1 s"
    by (rule join_split_comma)
  have 5: "length (split_comma (slice_1_m1 s)) = Suc (count_list (slice_1_m1 s) CHR '','')"
    by (rule length_split_comma)
  have 6: "\<forall>item \<in> set (split_comma (slice_1_m1 s)). CHR '','' \<notin> set item \<and> CHR '','' \<notin> set (trim item)"
  proof
    fix item assume "item \<in> set (split_comma (slice_1_m1 s))"
    then have n: "CHR '','' \<notin> set item" by (rule split_comma_no_comma)
    have "set (trim item) \<subseteq> set item"
      by (rule trim_subset)
    then show "CHR '','' \<notin> set item \<and> CHR '','' \<notin> set (trim item)" using n by blast
  qed
  show ?thesis using 1 2 3 4 5 6 by blast
qed

theorem brace_literal_never_fails_witness:
  "startsWith ''{\"a,b\", c}'' ''{'' \<and> endsWith ''{\"a,b\", c}'' ''}''
   \<and> normalize_value (\<lambda>n. []) ZodArray (JStr ''{\"a,b\", c}'')
       = Inr (JArr [JStr ''\"a'', JStr ''b\"'', JStr ''c''])"
proof -
  have h1: "startsWith ''{\"a,b\", c}'' ''{''" by (simp add: startsWith_def)
  have h2: "endsWith ''{\"a,b\", c}'' ''}''" by (simp add: endsWith_def)
  have "normalize_value (\<lambda>n. []) ZodArray (JStr ''{\"a,b\", c}'') =
      Inr (JArr (if trim (slice_1_m1 ''{\"a,b\", c}'') = [] then []
                 else map (\<lambda>item. JStr (trim item)) (split_comma (slice_1_m1 ''{\"a,b\", c}''))))"
    using brace_literal_never_fails [OF h1 h2, of "\<lambda>n. []"] by blast
  then have "normalize_value (\<lambda>n. []) ZodArray (JStr ''{\"a,b\", c}'')
       = Inr (JArr [JStr ''\"a'', JStr ''b\"'', JStr ''c''])"
    by (simp add: slice_1_m1_def trim_def is_ws_def)
  then show ?thesis using h1 h2 by blast
qed

subsection \<open>Editing a list field\<close>

text \<open>
  C3 (as amended). The \<open>onChange\<close> handler of a list field is total and stores: \<open>null\<close>
  for an input that is empty or only white space; the parsed array for any other input
  that \<open>JSON.parse\<close> turns into an array; the input string itself for any other input
  on which \<open>JSON.parse\<close> throws or returns something that is not an array.
\<close>

theorem array_onChange_cases:
  "(trim v = [] \<longrightarrow> array_onChange JSON_parse v = JNull) \<and>
   (trim v \<noteq> [] \<longrightarrow> JSON_parse v = Some (JArr xs) \<longrightarrow> array_onChange JSON_parse v = JArr xs) \<and>
   (trim v \<noteq> [] \<longrightarrow> JSON_parse v = None \<longrightarrow> array_onChange JSON_parse v = JStr v) \<and>
   (trim v \<noteq> [] \<longrightarrow> JSON_parse v = Some p \<longrightarrow> \<not> isArray p \<longrightarrow> array_onChange JSON_parse v = JStr v)"
  by (simp add: array_onChange_def)

theorem array_onChange_cases_witness:
  "trim [] = []
   \<and> array_onChange (\<lambda>s. if s = ''[\"x\",\"y\"]'' then Some (JArr [JStr ''x'', JStr ''y''])
                           else if s = ''5'' then Some (JNum (Finite 5)) else None) [] = JNull
   \<and> trim ''[\"x\",\"y\"]'' \<noteq> []
   \<and> array_onChange (\<lambda>s. if s = ''[\"x\",\"y\"]'' then Some (JArr [JStr ''x'', JStr ''y''])
                           else if s = ''5'' then Some (JNum (Finite 5)) else None) ''[\"x\",\"y\"]''
       = JArr [JStr ''x'', JStr ''y'']
   \<and> trim ''[x'' \<noteq> []
   \<and> array_onChange (\<lambda>s. if s = ''[\"x\",\"y\"]'' then Some (JArr [JStr ''x'', JStr ''y''])
                           else if s = ''5'' then Some (JNum (Finite 5)) else None) ''[x'' = JStr ''[x''
   \<and> trim ''5'' \<noteq> []
   \<and> array_onChange (\<lambda>s. if s = ''[\"x\",\"y\"]'' then Some (JArr [JStr ''x'', JStr ''y''])
                           else if s = ''5'' then Some (JNum (Finite 5)) else None) ''5'' = JStr ''5''"
proof -
  let ?P = "\<lambda>s. if s = ''[\"x\",\"y\"]'' then Some (JArr [JStr ''x'', JStr ''y''])
                 else if s = ''5'' then Some (JNum (Finite 5)) else None"
  have t0: "trim [] = []" by (simp add: trim_def)
  have t1: "trim ''[\"x\",\"y\"]'' \<noteq> []" by (simp add: trim_def is_ws_def)
  have t2: "trim ''[x'' \<noteq> []" by (simp add: trim_def is_ws_def)
  have t3: "trim ''5'' \<noteq> []" by (simp add: trim_def is_ws_def)
  have p1: "?P ''[\"x\",\"y\"]'' = Some (JArr [JStr ''x'', JStr ''y''])" by simp
  have p2: "?P ''[x'' = None" by simp
  have p3: "?P ''5'' = Some (JNum (Finite 5))" by simp
  have n3: "\<not> isArray (JNum (Finite 5))" by simp
  have a: "array_onChange ?P [] = JNull"
    using array_onChange_cases [of "[]" ?P] t0 by blast
  have b: "array_onChange ?P ''[\"x\",\"y\"]'' = JArr [JStr ''x'', JStr ''y'']"
    using array_onChange_cases [of "''[\"x\",\"y\"]''" ?P "[JStr ''x'', JStr ''y'']"] t1 p1 by blast
  have c: "array_onChange ?P ''[x'' = JStr ''[x''"
    using array_onChange_cases [of "''[x''" ?P] t2 p2 by blast
  have d: "array_onChange ?P ''5'' = JStr ''5''"
    using array_onChange_cases [of "''5''" ?P _ "JNum (Finite 5)"] t3 p3 n3 by blast
  show ?thesis using t0 t1 t2 t3 a b c d by blast
qed

text \<open>
  C3 as stated fails on an input of white space only: \<open>JSON.parse\<close> throws on a single
  space (\<open>None\<close> below), yet the handler trims before it parses and stores \<open>null\<close>, not
  the input string.
\<close>

text \<open>
  C3 as stated fails on an input of white space only: \<open>JSON.parse\<close> throws on a single
  space (\<open>None\<close> below), yet the handler trims before it parses and stores \<open>null\<close>, not
  the input string.
\<close>

theorem blank_input_counterexample:
  "array_onChange (\<lambda>s. None) '' '' = JNull"
  by (simp add: array_onChange_def trim_def is_ws_def)

subsection \<open>Integer fields\<close>

text \<open>Number values: an integer below \<open>2^53\<close>, a tie rounded to even, a decimal fraction.\<close>

lemma to_double_examples:
  "to_double 42 = Finite 42"
  "to_double 9007199254740993 = Finite 9007199254740992"
  "to_double (1 / 10) = Finite (3602879701896397 / 36028797018963968)"
  by code_simp+

text \<open>
  C4 (as amended). For an Integer-typed field \<open>f\<close>, not named \<open>__proto__\<close>, and a string
  \<open>s\<close>: the edit-time handler yields \<open>undefined\<close> exactly when \<open>s\<close> has no leading
  integer, so a non-numeric string without a leading integer (such as \<open>abc\<close>) yields
  \<open>undefined\<close> and not zero; normalization of a row that holds \<open>s\<close> under \<open>f\<close> returns
  for a well-formed schema and a plain row, and whenever it returns its entry for \<open>f\<close>
  is 0 when \<open>s\<close> is not numeric and the Number value of \<open>s\<close> when it is (42 for
  \<open>42\<close>).
\<close>

theorem integer_coercion_paths:
  assumes "distinct (map fst sh)" and "(f, t) \<in> set sh"
    and "unwrapZodType t = Inr ZodNumber" and "f \<noteq> ''__proto__''"
    and "initialValues f = Some (JStr s)"
  shows "(number_onChange s = JUndefined \<longleftrightarrow> \<not> leading_integer s) \<and>
    (\<not> numeric_string s \<and> \<not> leading_integer s \<longrightarrow>
       number_onChange s = JUndefined \<and> number_onChange s \<noteq> JNum (Finite 0)) \<and>
    (well_formed sh \<and> plain_row sh initialValues \<longrightarrow>
       (\<exists>m. processedInitialValues fmt sh initialValues = Inr m)) \<and>
    (\<forall>m. processedInitialValues fmt sh initialValues = Inr m \<longrightarrow>
       (\<not> numeric_string s \<longrightarrow> m f = Some (JNum (Finite 0))) \<and>
       (numeric_string s \<longrightarrow> m f = Some (JNum (StringToNumber s))))"
proof -
  have 1: "number_onChange s = JUndefined \<longleftrightarrow> \<not> leading_integer s"
    by (rule number_onChange_undefined_iff)
  have 2: "\<not> numeric_string s \<and> \<not> leading_integer s \<longrightarrow>
       number_onChange s = JUndefined \<and> number_onChange s \<noteq> JNum (Finite 0)"
    using 1 by auto
  have 3: "well_formed sh \<and> plain_row sh initialValues \<longrightarrow>
       (\<exists>m. processedInitialValues fmt sh initialValues = Inr m)"
    using processedInitialValues_succeeds by blast
  have 4: "\<forall>m. processedInitialValues fmt sh initialValues = Inr m \<longrightarrow>
       (\<not> numeric_string s \<longrightarrow> m f = Some (JNum (Finite 0))) \<and>
       (numeric_string s \<longrightarrow> m f = Some (JNum (StringToNumber s)))"
  proof (intro allI impI)
    fix m assume m: "processedInitialValues fmt sh initialValues = Inr m"
    obtain b r where b: "unwrapZodType t = Inr b"
      and e: "normalize_value fmt b (row_value initialValues f) = Inr r" and mf: "m f = Some r"
      using processedInitialValues_entry [OF m assms(1,2,4)] by blast
    have v: "row_value initialValues f = JStr s" using assms(5) by (simp add: row_value_def)
    have "r = (if StringToNumber s = NaN then JNum (Finite 0) else JNum (StringToNumber s))"
      using e b assms(3) v by (auto simp: isNaN_def)
    then show "(\<not> numeric_string s \<longrightarrow> m f = Some (JNum (Finite 0))) \<and>
       (numeric_string s \<longrightarrow> m f = Some (JNum (StringToNumber s)))"
      using mf by (simp add: numeric_string_def)
  qed
  show ?thesis using 1 2 3 4 by (intro conjI)
qed

theorem integer_coercion_paths_witness:
  "distinct (map fst [(''age'', ZodNullable ZodNumber)])
   \<and> (''age'', ZodNullable ZodNumber) \<in> set [(''age'', ZodNullable ZodNumber)]
   \<and> unwrapZodType (ZodNullable ZodNumber) = Inr ZodNumber
   \<and> ''age'' \<noteq> ''__proto__''
   \<and> [''age'' \<mapsto> JStr ''abc''] ''age'' = Some (JStr ''abc'')
   \<and> [''age'' \<mapsto> JStr ''42''] ''age'' = Some (JStr ''42'')
   \<and> well_formed [(''age'', ZodNullable ZodNumber)]
   \<and> plain_row [(''age'', ZodNullable ZodNumber)] [''age'' \<mapsto> JStr ''abc'']
   \<and> plain_row [(''age'', ZodNullable ZodNumber)] [''age'' \<mapsto> JStr ''42'']
   \<and> number_onChange ''abc'' = JUndefined
   \<and> (\<exists>m. processedInitialValues (\<lambda>n. []) [(''age'', ZodNullable ZodNumber)] [''age'' \<mapsto> JStr ''abc''] = Inr m
          \<and> m ''age'' = Some (JNum (Finite 0)))
   \<and> (\<exists>m. processedInitialValues (\<lambda>n. []) [(''age'', ZodNullable ZodNumber)] [''age'' \<mapsto> JStr ''42''] = Inr m
          \<and> m ''age'' = Some (JNum (Finite 42)))"
proof -
  let ?sh = "[(''age'', ZodNullable ZodNumber)]"
  have h1: "distinct (map fst ?sh)" by simp
  have h2: "(''age'', ZodNullable ZodNumber) \<in> set ?sh" by simp
  have h3: "unwrapZodType (ZodNullable ZodNumber) = Inr ZodNumber" by simp
  have h4: "''age'' \<noteq> ''__proto__''" by simp
  have h5: "[''age'' \<mapsto> JStr ''abc''] ''age'' = Some (JStr ''abc'')" by simp
  have h6: "[''age'' \<mapsto> JStr ''42''] ''age'' = Some (JStr ''42'')" by simp
  have w: "well_formed ?sh" by (simp add: well_formed_def)
  have p1: "plain_row ?sh [''age'' \<mapsto> JStr ''abc'']" by (simp add: plain_row_def row_value_def)
  have p2: "plain_row ?sh [''age'' \<mapsto> JStr ''42'']" by (simp add: plain_row_def row_value_def)
  have n1: "\<not> numeric_string ''abc''" by code_simp
  have l1: "\<not> leading_integer ''abc''" by code_simp
  have n2: "numeric_string ''42''" by code_simp
  have v2: "StringToNumber ''42'' = Finite 42" by code_simp
  note abc = integer_coercion_paths [where initialValues = "[''age'' \<mapsto> JStr ''abc'']"
      and s = "''abc''" and fmt = "\<lambda>n. []", OF h1 h2 h3 h4 h5]
  note num = integer_coercion_paths [where initialValues = "[''age'' \<mapsto> JStr ''42'']"
      and s = "''42''" and fmt = "\<lambda>n. []", OF h1 h2 h3 h4 h6]
  have a: "number_onChange ''abc'' = JUndefined"
    using abc [THEN conjunct1] l1 by (rule iffD2)
  obtain m where m: "processedInitialValues (\<lambda>n. []) ?sh [''age'' \<mapsto> JStr ''abc''] = Inr m"
    using abc [THEN conjunct2, THEN conjunct2, THEN conjunct1] w p1 by blast
  have "m ''age'' = Some (JNum (Finite 0))"
    using abc [THEN conjunct2, THEN conjunct2, THEN conjunct2] m n1 by blast
  then have b: "\<exists>m. processedInitialValues (\<lambda>n. []) ?sh [''age'' \<mapsto> JStr ''abc''] = Inr m
          \<and> m ''age'' = Some (JNum (Finite 0))"
    using m by blast
  obtain m' where m': "processedInitialValues (\<lambda>n. []) ?sh [''age'' \<mapsto> JStr ''42''] = Inr m'"
    using num [THEN conjunct2, THEN conjunct2, THEN conjunct1] w p2 by blast
  have "m' ''age'' = Some (JNum (StringToNumber ''42''))"
    using num [THEN conjunct2, THEN conjunct2, THEN conjunct2] m' n2 by blast
  then have "m' ''age'' = Some (JNum (Finite 42))" by (simp only: v2)
  then have c: "\<exists>m. processedInitialValues (\<lambda>n. []) ?sh [''age'' \<mapsto> JStr ''42''] = Inr m
          \<and> m ''age'' = Some (JNum (Finite 42))"
    using m' by blast
  show ?thesis using h1 h2 h3 h4 h5 h6 w p1 p2 a b c by (intro conjI)
qed

text \<open>
  C4 as stated fails on a non-numeric string that starts with digits: \<open>parseInt\<close> reads
  the digits and ignores the rest, so the handler yields 12 for \<open>12abc\<close>, and zero for
  \<open>0abc\<close>, although \<open>Number\<close> gives \<open>NaN\<close> for both.
\<close>

theorem numeric_prefix_counterexample:
  "\<not> numeric_string ''12abc'' \<and> number_onChange ''12abc'' = JNum (Finite 12)
   \<and> \<not> numeric_string ''0abc'' \<and> number_onChange ''0abc'' = JNum (Finite 0)"
proof -
  have 1: "\<not> numeric_string ''12abc''" by code_simp
  have 2: "number_onChange ''12abc'' = JNum (Finite 12)" by code_simp
  have 3: "\<not> numeric_string ''0abc''" by code_simp
  have 4: "number_onChange ''0abc'' = JNum (Finite 0)" by code_simp
  show ?thesis using 1 2 3 4 by (intro conjI)
qed

subsection \<open>Entries of the value sets\<close>

text \<open>
  For a well-formed schema and a plain row both value sets are produced, and their
  entries are the field names of the schema other than \<open>__proto__\<close>.
\<close>

lemma entries_of_results:
  assumes "well_formed sh" and "plain_row sh initialValues"
  shows "\<exists>d m. defaultValues sh = Inr d \<and> processedInitialValues fmt sh initialValues = Inr m \<and>
           dom d = fst ` set sh - {''__proto__''} \<and> dom m = fst ` set sh - {''__proto__''}"
proof -
  obtain d where d: "defaultValues sh = Inr d"
    using defaultValues_succeeds [OF assms(1)] by blast
  obtain m where m: "processedInitialValues fmt sh initialValues = Inr m"
    using processedInitialValues_succeeds [OF assms] by blast
  have "dom d = fst ` set sh - {''__proto__''}"
    using reduce_shape_dom [OF d [unfolded defaultValues_def]] by simp
  moreover have "dom m = fst ` set sh - {''__proto__''}"
    using reduce_shape_dom [OF m [unfolded processedInitialValues_def]] by simp
  ultimately show ?thesis using d m by blast
qed

text \<open>
  C5. The entries are not always the schema's field names. A row with an own property
  \<open>hasOwnProperty\<close>, a name that is no field of the schema, makes the normalization
  throw a \<open>TypeError\<close>, where the same row with that property under another name is
  normalized and the name dropped; and a field named \<open>__proto__\<close> gets no entry, in
  \<open>defaultValues\<close> and in the normalization.
\<close>

theorem entries_missing_or_throwing:
  "processedInitialValues (\<lambda>n. []) [(''name'', ZodString)]
     [''name'' \<mapsto> JStr ''Ann'', ''hasOwnProperty'' \<mapsto> JBool True] = Inl TypeError
   \<and> processedInitialValues (\<lambda>n. []) [(''name'', ZodString)]
     [''name'' \<mapsto> JStr ''Ann'', ''id'' \<mapsto> JBool True] = Inr [''name'' \<mapsto> JStr ''Ann'']
   \<and> defaultValues [(''__proto__'', ZodString), (''name'', ZodString)] = Inr [''name'' \<mapsto> JStr []]
   \<and> processedInitialValues (\<lambda>n. []) [(''__proto__'', ZodString), (''name'', ZodString)] Map.empty
       = Inr [''name'' \<mapsto> JStr []]"
  by (simp add: processedInitialValues_def defaultValues_def normalize_field_def own_value_def
      assign_def)

text \<open>
  C6. For every well-formed schema, normalization of the empty row returns, and its
  entry for a field is the type-based fallback of the field's base type, whatever
  defaults the field declares (no entry for a field named \<open>__proto__\<close>); on a field
  that declares no default it agrees with \<open>defaultValues\<close>.
\<close>

theorem normalize_empty_agrees:
  assumes "well_formed sh" and "distinct (map fst sh)" and "(f, t) \<in> set sh"
  shows "\<exists>d m b. defaultValues sh = Inr d \<and> processedInitialValues fmt sh Map.empty = Inr m \<and>
           unwrapZodType t = Inr b \<and>
           m f = (if f = ''__proto__'' then None else Some (type_fallback b)) \<and>
           (declared_defaults t = [] \<longrightarrow> d f = m f)"
proof -
  have p: "plain_row sh Map.empty"
    by (simp add: plain_row_def row_value_def list_all_iff split: prod.splits)
  obtain d where d: "defaultValues sh = Inr d"
    using defaultValues_succeeds [OF assms(1)] by blast
  obtain m where m: "processedInitialValues fmt sh Map.empty = Inr m"
    using processedInitialValues_succeeds [OF assms(1) p] by blast
  have s: "is_schema t" using assms(1,3) unfolding well_formed_iff by auto
  then obtain b where b: "unwrapZodType t = Inr b" and bb: "is_base b"
    using unwrapZodType_schema by blast
  show ?thesis
  proof (cases "f = ''__proto__''")
    case True
    have "m f = None"
      using reduce_shape_proto [OF m [unfolded processedInitialValues_def]] True by simp
    moreover have "d f = None"
      using reduce_shape_proto [OF d [unfolded defaultValues_def]] True by simp
    ultimately show ?thesis using d m b True by auto
  next
    case False
    obtain b' r where b': "unwrapZodType t = Inr b'"
      and e: "normalize_value fmt b' (row_value Map.empty f) = Inr r" and mf': "m f = Some r"
      using processedInitialValues_entry [OF m assms(2,3) False] by blast
    have "b' = b" using b b' by simp
    then have mf: "m f = Some (type_fallback b)"
      using e mf' normalize_undefined [OF bb] by (simp add: row_value_def)
    have df: "default_value f t = Inr (the (d f)) \<and> d f \<noteq> None"
      using defaultValues_entry [OF d assms(2,3) False] .
    have "declared_defaults t = [] \<longrightarrow> d f = m f"
    proof
      assume "declared_defaults t = []"
      then have "default_value f t = Inr (type_fallback b)"
        using default_value_fallback [OF b] by simp
      then show "d f = m f" using df mf by auto
    qed
    then show ?thesis using d m b mf False by auto
  qed
qed

theorem normalize_empty_agrees_witness:
  "well_formed [(''kind'', ZodOptional (ZodEnum [''a'', ''b''])), (''n'', ZodDefault (JNum (Finite 5)) ZodNumber)]
   \<and> distinct (map fst [(''kind'', ZodOptional (ZodEnum [''a'', ''b''])), (''n'', ZodDefault (JNum (Finite 5)) ZodNumber)])
   \<and> (\<exists>d m. defaultValues [(''kind'', ZodOptional (ZodEnum [''a'', ''b''])), (''n'', ZodDefault (JNum (Finite 5)) ZodNumber)] = Inr d
        \<and> processedInitialValues (\<lambda>n. []) [(''kind'', ZodOptional (ZodEnum [''a'', ''b''])), (''n'', ZodDefault (JNum (Finite 5)) ZodNumber)] Map.empty = Inr m
        \<and> m ''kind'' = Some (JStr ''a'') \<and> d ''kind'' = Some (JStr ''a'')
        \<and> m ''n'' = Some (JNum (Finite 0)))"
proof -
  let ?sh = "[(''kind'', ZodOptional (ZodEnum [''a'', ''b''])), (''n'', ZodDefault (JNum (Finite 5)) ZodNumber)]"
  have h1: "well_formed ?sh" by (simp add: well_formed_def)
  have h2: "distinct (map fst ?sh)" by simp
  have h3: "(''kind'', ZodOptional (ZodEnum [''a'', ''b''])) \<in> set ?sh" by simp
  have h4: "(''n'', ZodDefault (JNum (Finite 5)) ZodNumber) \<in> set ?sh" by simp
  have u3: "unwrapZodType (ZodOptional (ZodEnum [''a'', ''b''])) = Inr (ZodEnum [''a'', ''b''])" by simp
  have u4: "unwrapZodType (ZodDefault (JNum (Finite 5)) ZodNumber) = Inr ZodNumber" by simp
  have dd: "declared_defaults (ZodOptional (ZodEnum [''a'', ''b''])) = []" by simp
  obtain d m b where d: "defaultValues ?sh = Inr d"
    and m: "processedInitialValues (\<lambda>n. []) ?sh Map.empty = Inr m"
    and b: "unwrapZodType (ZodOptional (ZodEnum [''a'', ''b''])) = Inr b"
    and k: "m ''kind'' = (if ''kind'' = ''__proto__'' then None else Some (type_fallback b))"
    and a: "declared_defaults (ZodOptional (ZodEnum [''a'', ''b''])) = [] \<longrightarrow> d ''kind'' = m ''kind''"
    using normalize_empty_agrees [OF h1 h2 h3, of "\<lambda>n. []"] by (elim exE conjE)
  have b': "b = ZodEnum [''a'', ''b'']" using b u3 by simp
  have mk: "m ''kind'' = Some (JStr ''a'')" using k unfolding b' by simp
  have dk: "d ''kind'' = Some (JStr ''a'')" using a dd mk by simp
  obtain d' m' c where m': "processedInitialValues (\<lambda>n. []) ?sh Map.empty = Inr m'"
    and c: "unwrapZodType (ZodDefault (JNum (Finite 5)) ZodNumber) = Inr c"
    and n: "m' ''n'' = (if ''n'' = ''__proto__'' then None else Some (type_fallback c))"
    using normalize_empty_agrees [OF h1 h2 h4, of "\<lambda>n. []"] by (elim exE conjE)
  have c': "c = ZodNumber" using c u4 by simp
  have "m' = m" using m m' by simp
  then have mn: "m ''n'' = Some (JNum (Finite 0))" using n unfolding c' by simp
  have "\<exists>d m. defaultValues ?sh = Inr d \<and> processedInitialValues (\<lambda>n. []) ?sh Map.empty = Inr m
        \<and> m ''kind'' = Some (JStr ''a'') \<and> d ''kind'' = Some (JStr ''a'')
        \<and> m ''n'' = Some (JNum (Finite 0))"
    using d m mk dk mn by (intro exI [of _ d] exI [of _ m] conjI)
  then show ?thesis using h1 h2 by (intro conjI)
qed

subsection \<open>Malformed schemas\<close>

lemma render_fields_fails_iff:
  "(\<exists>e. render_fields sh = Inl e) \<longleftrightarrow> (\<exists>(key, t) \<in> set sh. broken t \<or> t = BadDef)"
proof (induction sh)
  case Nil
  then show ?case by simp
next
  case (Cons p sh)
  obtain key t where p: "p = (key, t)" by (cases p)
  show ?case
  proof (cases "unwrapZodType t")
    case (Inl e)
    then have "broken t \<or> t = BadDef" using unwrapZodType_fails_iff [of t] by blast
    then show ?thesis using Inl p by (auto simp: renderField_def)
  next
    case (Inr b)
    then have "\<not> (broken t \<or> t = BadDef)" using unwrapZodType_fails_iff [of t] by auto
    then show ?thesis using Inr p Cons.IH
      by (cases "render_fields sh") (auto simp: renderField_def)
  qed
qed

lemma is_schema_sound: "is_schema t \<Longrightarrow> \<not> broken t \<and> t \<noteq> BadDef"
  by (induction t) auto

lemma DynamicForm_succeeds: "well_formed sh \<Longrightarrow> \<exists>dv bs. DynamicForm sh = Inr (dv, bs)"
proof -
  assume w: "well_formed sh"
  obtain dv where dv: "defaultValues sh = Inr dv" using defaultValues_succeeds [OF w] by blast
  have "\<not> (\<exists>(key, t) \<in> set sh. broken t \<or> t = BadDef)"
    using w is_schema_sound unfolding well_formed_iff by blast
  then have "\<not> (\<exists>e. render_fields sh = Inl e)" unfolding render_fields_fails_iff .
  then obtain bs where "render_fields sh = Inr bs" by (cases "render_fields sh") auto
  then show ?thesis using dv by (simp add: DynamicForm_def)
qed

lemma DynamicForm_fails:
  "\<exists>(key, t) \<in> set sh. broken t \<or> t = BadDef \<Longrightarrow> \<exists>e. DynamicForm sh = Inl e"
proof -
  assume "\<exists>(key, t) \<in> set sh. broken t \<or> t = BadDef"
  then obtain e where "render_fields sh = Inl e"
    using render_fields_fails_iff [of sh] by blast
  then show ?thesis by (cases "defaultValues sh") (auto simp: DynamicForm_def)
qed

lemma reduce_default_schema_error:
  "\<forall>(key, t) \<in> set sh. is_schema t \<or> t = Undefined \<or> t = BadDef \<Longrightarrow> \<not> well_formed sh \<Longrightarrow>
   \<exists>e. reduce_shape default_value sh acc = Inl e \<and> schema_error e"
proof (induction sh arbitrary: acc)
  case Nil
  then show ?case by (simp add: well_formed_def)
next
  case (Cons p sh)
  obtain key t where p: "p = (key, t)" by (cases p)
  have t: "is_schema t \<or> t = Undefined \<or> t = BadDef" using Cons.prems(1) p by auto
  show ?case
  proof (cases "is_schema t")
    case True
    then obtain v where v: "default_value key t = Inr v" using default_value_succeeds by blast
    have "\<not> well_formed sh" using Cons.prems(2) True p by (simp add: well_formed_def)
    moreover have "\<forall>(key, t) \<in> set sh. is_schema t \<or> t = Undefined \<or> t = BadDef"
      using Cons.prems(1) by auto
    ultimately obtain e where "reduce_shape default_value sh (assign acc key v) = Inl e"
      and "schema_error e"
      using Cons.IH by blast
    then show ?thesis using v p by auto
  next
    case False
    then have "t = Undefined \<or> t = BadDef" using t by simp
    then show ?thesis using p by auto
  qed
qed

lemma descriptor_without_def_TypeError:
  "DynamicForm ((key, Null) # sh) = Inl TypeError"
  "DynamicForm ((key, NotZod) # sh) = Inl TypeError"
  by (simp_all add: DynamicForm_def defaultValues_def)

text \<open>
  C8 (as amended). A schema all of whose descriptors are schemas is constructed,
  whatever base types they unwrap to. Construction throws whenever some descriptor is
  broken (it is, or its wrappers end at, \<open>undefined\<close>, \<open>null\<close> or a value without
  \<open>_def\<close>) or is itself a value whose \<open>_def\<close> is no object. What is thrown is one of
  the code's own schema errors when every descriptor that is no schema is \<open>undefined\<close>
  or is itself a value whose \<open>_def\<close> is no object.
\<close>

theorem construction_and_malformed_schemas:
  "(well_formed sh \<longrightarrow> (\<exists>dv bs. DynamicForm sh = Inr (dv, bs))) \<and>
   ((\<exists>(key, t) \<in> set sh. broken t \<or> t = BadDef) \<longrightarrow> (\<exists>e. DynamicForm sh = Inl e)) \<and>
   ((\<forall>(key, t) \<in> set sh. is_schema t \<or> t = Undefined \<or> t = BadDef) \<and> \<not> well_formed sh \<longrightarrow>
      (\<exists>e. DynamicForm sh = Inl e \<and> schema_error e))"
proof -
  have 1: "well_formed sh \<longrightarrow> (\<exists>dv bs. DynamicForm sh = Inr (dv, bs))"
    using DynamicForm_succeeds by blast
  have 2: "(\<exists>(key, t) \<in> set sh. broken t \<or> t = BadDef) \<longrightarrow> (\<exists>e. DynamicForm sh = Inl e)"
    using DynamicForm_fails by blast
  have 3: "(\<forall>(key, t) \<in> set sh. is_schema t \<or> t = Undefined \<or> t = BadDef) \<and> \<not> well_formed sh \<longrightarrow>
      (\<exists>e. DynamicForm sh = Inl e \<and> schema_error e)"
  proof
    assume a: "(\<forall>(key, t) \<in> set sh. is_schema t \<or> t = Undefined \<or> t = BadDef) \<and> \<not> well_formed sh"
    then obtain e where "defaultValues sh = Inl e" and "schema_error e"
      unfolding defaultValues_def using reduce_default_schema_error by blast
    then show "\<exists>e. DynamicForm sh = Inl e \<and> schema_error e"
      by (auto simp: DynamicForm_def)
  qed
  show ?thesis using 1 2 3 by (intro conjI)
qed

theorem construction_and_malformed_schemas_witness:
  "well_formed [(''name'', ZodString), (''when'', ZodOptional ZodOther)]
   \<and> (\<exists>dv bs. DynamicForm [(''name'', ZodString), (''when'', ZodOptional ZodOther)] = Inr (dv, bs))
   \<and> broken (ZodOptional Null)
   \<and> (\<exists>e. DynamicForm [(''name'', ZodString), (''age'', ZodOptional Null)] = Inl e)
   \<and> \<not> well_formed [(''name'', ZodString), (''age'', Undefined)]
   \<and> (\<exists>e. DynamicForm [(''name'', ZodString), (''age'', Undefined)] = Inl e \<and> schema_error e)"
proof -
  have h1: "well_formed [(''name'', ZodString), (''when'', ZodOptional ZodOther)]"
    by (simp add: well_formed_def)
  have h2: "\<exists>(key, t) \<in> set [(''name'', ZodString), (''age'', ZodOptional Null)]. broken t \<or> t = BadDef"
    by simp
  have h3: "\<forall>(key, t) \<in> set [(''name'', ZodString), (''age'', Undefined)].
         is_schema t \<or> t = Undefined \<or> t = BadDef"
    by simp
  have h4: "\<not> well_formed [(''name'', ZodString), (''age'', Undefined)]"
    by (simp add: well_formed_def)
  have a: "\<exists>dv bs. DynamicForm [(''name'', ZodString), (''when'', ZodOptional ZodOther)] = Inr (dv, bs)"
    using construction_and_malformed_schemas
      [where sh = "[(''name'', ZodString), (''when'', ZodOptional ZodOther)]", THEN conjunct1] h1
    by (rule mp)
  have b: "\<exists>e. DynamicForm [(''name'', ZodString), (''age'', ZodOptional Null)] = Inl e"
    using construction_and_malformed_schemas
      [where sh = "[(''name'', ZodString), (''age'', ZodOptional Null)]",
        THEN conjunct2, THEN conjunct1] h2
    by (rule mp)
  have c: "\<exists>e. DynamicForm [(''name'', ZodString), (''age'', Undefined)] = Inl e \<and> schema_error e"
    using construction_and_malformed_schemas
      [where sh = "[(''name'', ZodString), (''age'', Undefined)]",
        THEN conjunct2, THEN conjunct2] h3 h4
    by blast
  have h5: "broken (ZodOptional Null)" by simp
  show ?thesis using h1 a h5 b h4 c by (intro conjI)
qed

text \<open>
  C8 as stated fails on a field whose unwrapping ends at a type that is none of the five
  primitives (a date, say): nothing throws, the \<open>default\<close> branch of the \<open>switch\<close> gives
  the field the default \<open>undefined\<close>, and the form is constructed.
\<close>

theorem unrecognized_base_counterexample:
  "\<not> recognized ZodOther
   \<and> unwrapZodType (ZodOptional ZodOther) = Inr ZodOther
   \<and> DynamicForm [(''when'', ZodOptional ZodOther)] = Inr ([''when'' \<mapsto> JUndefined], [ZodOther])"
  by (simp add: DynamicForm_def defaultValues_def renderField_def assign_def)

subsection \<open>Idempotence and nesting order\<close>

text \<open>
  C9 (as amended). Where unwrapping returns a base type, as it does for every schema,
  unwrapping that base type returns it again. Unwrapping is independent of the nesting
  order: a base type under any list of optional, nullable, default and effects wrappers
  unwraps to that base type, so two nestings of the same wrappers in different orders
  unwrap to the same type.
\<close>

theorem unwrap_idempotent_order_independent:
  "(unwrapZodType t = Inr b \<longrightarrow> is_base b \<longrightarrow> unwrapZodType b = Inr b) \<and>
   (is_schema t \<longrightarrow> (\<exists>b. unwrapZodType t = Inr b \<and> is_base b \<and> unwrapZodType b = Inr b)) \<and>
   (is_base c \<longrightarrow> mset ws' = mset ws \<longrightarrow>
      unwrapZodType (wrap ws c) = Inr c \<and> unwrapZodType (wrap ws' c) = unwrapZodType (wrap ws c))"
proof -
  have 1: "unwrapZodType t = Inr b \<longrightarrow> is_base b \<longrightarrow> unwrapZodType b = Inr b"
    using unwrapZodType_of_base [of b] by blast
  have 2: "is_schema t \<longrightarrow> (\<exists>b. unwrapZodType t = Inr b \<and> is_base b \<and> unwrapZodType b = Inr b)"
    using unwrapZodType_schema [of t] unwrapZodType_of_base by blast
  have 3: "is_base c \<longrightarrow> mset ws' = mset ws \<longrightarrow>
      unwrapZodType (wrap ws c) = Inr c \<and> unwrapZodType (wrap ws' c) = unwrapZodType (wrap ws c)"
    using unwrapZodType_wrap [of c ws] unwrapZodType_wrap [of c ws'] by simp
  show ?thesis using 1 2 3 by (intro conjI)
qed

theorem unwrap_idempotent_order_independent_witness:
  "unwrapZodType (ZodOptional (ZodDefault (JStr ''x'') (ZodEffects ZodString))) = Inr ZodString
   \<and> is_base ZodString
   \<and> unwrapZodType ZodString = Inr ZodString
   \<and> is_schema (ZodNullable ZodBoolean)
   \<and> (\<exists>b. unwrapZodType (ZodNullable ZodBoolean) = Inr b \<and> is_base b \<and> unwrapZodType b = Inr b)
   \<and> is_base (ZodEnum [''a''])
   \<and> mset [Effects, Nullable, Default (JStr ''a''), Optional] = mset [Optional, Default (JStr ''a''), Nullable, Effects]
   \<and> unwrapZodType (ZodOptional (ZodDefault (JStr ''a'') (ZodNullable (ZodEffects (ZodEnum [''a''])))))
       = Inr (ZodEnum [''a''])
   \<and> unwrapZodType (ZodEffects (ZodNullable (ZodDefault (JStr ''a'') (ZodOptional (ZodEnum [''a''])))))
       = Inr (ZodEnum [''a''])"
proof -
  have h1: "unwrapZodType (ZodOptional (ZodDefault (JStr ''x'') (ZodEffects ZodString))) = Inr ZodString"
    by simp
  have h1': "is_base ZodString" by simp
  have h2: "is_base (ZodEnum [''a''])" by simp
  have h3: "mset [Effects, Nullable, Default (JStr ''a''), Optional]
      = mset [Optional, Default (JStr ''a''), Nullable, Effects]" by simp
  have h4: "is_schema (ZodNullable ZodBoolean)" by simp
  note inst = unwrap_idempotent_order_independent
    [where t = "ZodOptional (ZodDefault (JStr ''x'') (ZodEffects ZodString))" and b = ZodString
      and c = "ZodEnum [''a'']" and ws = "[Optional, Default (JStr ''a''), Nullable, Effects]"
      and ws' = "[Effects, Nullable, Default (JStr ''a''), Optional]"]
  note inst2 = unwrap_idempotent_order_independent
    [where t = "ZodNullable ZodBoolean" and b = ZodString
      and c = "ZodEnum [''a'']" and ws = "[]" and ws' = "[]"]
  have a: "unwrapZodType ZodString = Inr ZodString"
    using inst [THEN conjunct1] h1 h1' by blast
  have a2: "\<exists>b. unwrapZodType (ZodNullable ZodBoolean) = Inr b \<and> is_base b \<and> unwrapZodType b = Inr b"
    using inst2 [THEN conjunct2, THEN conjunct1] h4 by (rule mp)
  have b: "unwrapZodType (wrap [Optional, Default (JStr ''a''), Nullable, Effects] (ZodEnum [''a''])) = Inr (ZodEnum [''a''])
      \<and> unwrapZodType (wrap [Effects, Nullable, Default (JStr ''a''), Optional] (ZodEnum [''a'']))
        = unwrapZodType (wrap [Optional, Default (JStr ''a''), Nullable, Effects] (ZodEnum [''a'']))"
    using inst [THEN conjunct2, THEN conjunct2] h2 h3 by blast
  have c: "unwrapZodType (ZodOptional (ZodDefault (JStr ''a'') (ZodNullable (ZodEffects (ZodEnum [''a''])))))
       = Inr (ZodEnum [''a''])"
    using b [THEN conjunct1] by (simp add: wrap_def)
  have d: "unwrapZodType (ZodEffects (ZodNullable (ZodDefault (JStr ''a'') (ZodOptional (ZodEnum [''a''])))))
       = Inr (ZodEnum [''a''])"
    using b by (simp add: wrap_def)
  show ?thesis using h1 h1' a h4 a2 h2 h3 c d by (intro conjI)
qed

text \<open>
  C9 as stated fails where unwrapping returns something that is no schema: under an
  optional wrapper, a value whose \<open>_def\<close> is a number ends the loop and is returned, and
  unwrapping it again stops at the guard.
\<close>

theorem unwrap_not_idempotent_counterexample:
  "unwrapZodType (ZodOptional BadDef) = Inr BadDef \<and> unwrapZodType BadDef = Inl InvalidSchema"
  by simp

end
